theory Spec2Isabelle
  imports Complex_Main "HOL-Library.Sublist"
begin

section \<open>The downloader (src/downloader.py) as state-passing functions\<close>

text \<open>
  The program is one sequential Python script. Everything it touches outside its own
  variables is made explicit: the SQLite table \<open>downloads\<close>, the files it writes, the
  checkpoint file, and the remote services, which answer through oracles indexed by the
  number of calls made so far. Exceptions are values of type \<open>error\<close>; a function that
  may raise returns \<open>error + 'a\<close>, with \<open>Inl\<close> the raised exception.
\<close>

subsection \<open>Configuration (lines 12-23)\<close>

text \<open>A Python float: a finite value, a NaN, or an infinity of either sign.\<close>

datatype pyfloat = Finite real | NaN | Infinity | Minus_infinity

text \<open>
  The module constants read from the environment. \<open>SLEEP_TIME\<close> is a Python float
  (\<open>float("nan")\<close> and \<open>float("inf")\<close> parse); it is only ever passed to \<open>time.sleep\<close>.
  \<open>MAX_RETRIES\<close> and \<open>RATE_LIMIT_SLEEP\<close> are unbounded Python ints.
\<close>

record config =
  USERNAME :: string
  SLEEP_TIME :: pyfloat
  MAX_RETRIES :: int
  RATE_LIMIT_SLEEP :: int
  FORCE_RECHECK :: bool
  DOWNLOAD_SUBSCRIPTIONS :: bool

subsection \<open>Exceptions\<close>

datatype error =
    RuntimeError int string   \<comment> \<open>\<open>RuntimeError(f"Failed after {MAX_RETRIES} retries: {url}")\<close>\<close>
  | ValueError                \<comment> \<open>\<open>time.sleep\<close> called with a negative duration or a NaN\<close>
  | OverflowError             \<comment> \<open>\<open>time.sleep\<close> called with a duration too large to convert\<close>
  | AttributeError            \<comment> \<open>\<open>.get\<close> on a value that is not a dict\<close>
  | TypeError                 \<comment> \<open>a slice index or an \<open>enumerate\<close> start that is not an integer\<close>
  | KeyError string           \<comment> \<open>a subscript \<open>d[k]\<close> on a dict without the key \<open>k\<close>\<close>
  | HTTPError                 \<comment> \<open>\<open>raise_for_status\<close> or a \<open>RequestException\<close> of \<open>requests.post\<close>\<close>

subsection \<open>The Ledger: table \<open>downloads\<close> (lines 46-109)\<close>

text \<open>
  A row of the table as created before the column \<open>is_premium\<close> existed, and a row of the
  current table. The column \<open>downloaded_at\<close> (a wall-clock timestamp) is left out. The
  column \<open>url\<close> is nullable: \<open>deviation.get("url")\<close> may be \<open>None\<close>.
\<close>

record legacy_row =
  deviationid :: string
  artist :: string
  title :: string
  url :: "string option"
  tags :: string

record row = legacy_row +
  is_premium :: int

text \<open>
  The database file: without the table, with the table in its old shape, or with the
  table in its current shape.
\<close>

datatype store = No_table | Legacy_table "legacy_row list" | Table "row list"

datatype sqlite_error = OperationalError string

text \<open>
  What SQLite does on \<open>ALTER TABLE downloads ADD COLUMN is_premium INTEGER DEFAULT 0\<close>:
  it fails when the table is missing or the column exists, and otherwise every existing
  row reads the default \<open>0\<close> in the new column.
\<close>

definition add_default :: "legacy_row \<Rightarrow> row" where
  "add_default r =
     \<lparr>deviationid = deviationid r, artist = artist r, title = title r, url = url r,
      tags = tags r, is_premium = 0\<rparr>"

fun alter_table_add_is_premium :: "store \<Rightarrow> sqlite_error + store" where
  "alter_table_add_is_premium No_table = Inl (OperationalError ''no such table: downloads'')"
| "alter_table_add_is_premium (Legacy_table rs) = Inr (Table (map add_default rs))"
| "alter_table_add_is_premium (Table rs) =
     Inl (OperationalError ''duplicate column name: is_premium'')"

text \<open>\<open>CREATE TABLE IF NOT EXISTS downloads (...)\<close>: creates the empty table when missing.\<close>

fun create_table_if_not_exists :: "store \<Rightarrow> store" where
  "create_table_if_not_exists No_table = Table []"
| "create_table_if_not_exists s = s"

text \<open>
  Lines 46-58. The handler swallows the error exactly when its message contains
  \<open>duplicate column name\<close>, and re-raises it otherwise.
\<close>

definition add_is_premium_column_if_missing :: "store \<Rightarrow> sqlite_error + store" where
  "add_is_premium_column_if_missing s =
     (case alter_table_add_is_premium s of
        Inr s' \<Rightarrow> Inr s'
      | Inl (OperationalError msg) \<Rightarrow>
          if sublist ''duplicate column name'' msg then Inr s
          else Inl (OperationalError msg))"

text \<open>Lines 60-76: the migration step runs first, then the table is created if missing.\<close>

definition init_db :: "store \<Rightarrow> sqlite_error + store" where
  "init_db s =
     (case add_is_premium_column_if_missing s of
        Inl e \<Rightarrow> Inl e
      | Inr s' \<Rightarrow> Inr (create_table_if_not_exists s'))"

text \<open>
  The open table is the list of its rows. \<open>INSERT OR IGNORE\<close> skips the insertion when a
  row with the same primary key \<open>deviationid\<close> exists.
\<close>

type_synonym ledger = "row list"

definition insert_or_ignore :: "row \<Rightarrow> ledger \<Rightarrow> ledger" where
  "insert_or_ignore r db =
     (if deviationid r \<in> set (map deviationid db) then db else db @ [r])"

text \<open>Lines 80-83.\<close>

definition is_downloaded :: "ledger \<Rightarrow> string \<Rightarrow> bool" where
  "is_downloaded db deviation_id = (find (\<lambda>r. deviationid r = deviation_id) db \<noteq> None)"

text \<open>Lines 85-92.\<close>

definition mark_subscription ::
  "string \<Rightarrow> string \<Rightarrow> string \<Rightarrow> string option \<Rightarrow> ledger \<Rightarrow> ledger" where
  "mark_subscription deviation_id artist' title' url' db =
     insert_or_ignore
       \<lparr>deviationid = deviation_id, artist = artist', title = title', url = url',
        tags = '''', is_premium = 1\<rparr> db"

text \<open>Lines 94-101: the first row with that key, if any, has \<open>is_premium = 1\<close>.\<close>

definition is_subscription :: "ledger \<Rightarrow> string \<Rightarrow> bool" where
  "is_subscription db deviation_id =
     (case find (\<lambda>r. deviationid r = deviation_id) db of
        None \<Rightarrow> False
      | Some r \<Rightarrow> is_premium r = 1)"

text \<open>Python's \<open>"\n".join(tags)\<close>.\<close>

fun join_lines :: "string list \<Rightarrow> string" where
  "join_lines [] = ''''"
| "join_lines [t] = t"
| "join_lines (t # ts) = t @ [CHR 0x0A] @ join_lines ts"

text \<open>Lines 103-109: the column \<open>is_premium\<close> takes its default \<open>0\<close>.\<close>

definition mark_downloaded ::
  "string \<Rightarrow> string \<Rightarrow> string \<Rightarrow> string option \<Rightarrow> string list \<Rightarrow> ledger \<Rightarrow> ledger" where
  "mark_downloaded deviation_id artist' title' url' tags' db =
     insert_or_ignore
       \<lparr>deviationid = deviation_id, artist = artist', title = title', url = url',
        tags = join_lines tags', is_premium = 0\<rparr> db"

text \<open>
  The two recording operations of the Ledger under one name, for statements about any
  combination of them.
\<close>

datatype ledger_call =
    Record_restricted string string "string option"
  | Record_downloaded string string "string option" "string list"

fun record_call :: "string \<Rightarrow> ledger_call \<Rightarrow> ledger \<Rightarrow> ledger" where
  "record_call i (Record_restricted a t u) db = mark_subscription i a t u db"
| "record_call i (Record_downloaded a t u ts) db = mark_downloaded i a t u ts db"

fun row_of_call :: "string \<Rightarrow> ledger_call \<Rightarrow> row" where
  "row_of_call i (Record_restricted a t u) =
     \<lparr>deviationid = i, artist = a, title = t, url = u, tags = '''', is_premium = 1\<rparr>"
| "row_of_call i (Record_downloaded a t u ts) =
     \<lparr>deviationid = i, artist = a, title = t, url = u, tags = join_lines ts,
      is_premium = 0\<rparr>"

subsection \<open>Remote services, files and the trace of effects\<close>

text \<open>
  A JSON object of a response, restricted to the keys the program reads; each field holds
  what the program's accessor returns. \<open>key_username\<close> is \<open>f['user']['username']\<close> and
  \<open>key_deviationid\<close> is \<open>deviation["deviationid"]\<close>: \<open>None\<close> when the subscript raises
  \<open>KeyError\<close>. \<open>key_title\<close> and \<open>key_url\<close> are the results of \<open>.get\<close>. \<open>key_content\<close> is
  the dict \<open>deviation.get("content", {})\<close>. \<open>key_premium_content\<close> and
  \<open>key_premium_folder_data\<close> are the truth values of the two \<open>.get\<close> results, and
  \<open>key_is_downloadable\<close> is \<open>deviation.get("is_downloadable")\<close>.
\<close>

record entry =
  key_username :: "string option"
  key_deviationid :: "string option"
  key_title :: "string option"
  key_url :: "string option"
  key_content :: "(string \<times> string) list"
  key_premium_content :: bool
  key_premium_folder_data :: bool
  key_is_downloadable :: "bool option"

text \<open>
  A parsed response body: \<open>data.get('results', [])\<close>, the truth value of
  \<open>data.get('has_more')\<close>, \<open>data.get('next_offset', 0)\<close> (\<open>None\<close> is JSON \<open>null\<close>), and for
  the metadata endpoint the list \<open>metadata["metadata"]\<close> (empty when the key is absent),
  each element given by its \<open>.get("tags", [])\<close>, each tag by its \<open>t["tag_name"]\<close>.
\<close>

record body =
  key_results :: "entry list"
  key_has_more :: bool
  key_next_offset :: "int option"
  key_metadata :: "string option list list"

text \<open>
  What \<open>requests.get\<close> of the transport does: it raises a \<open>RequestException\<close>, or returns a
  response with a status code and a body. What \<open>get_access_token\<close>'s exchange does: it
  yields a token, or raises (\<open>raise_for_status\<close>, or a \<open>RequestException\<close> of the post).
\<close>

datatype outcome = RequestException | Response int body

datatype auth_outcome = Token string | Auth_error

text \<open>
  The remote side: the outcome of the n-th transport request, of the n-th credential
  exchange, of the n-th asset fetch (the bytes, or a failure) and of the n-th call of the
  tagging service (the label names, or a failure).
\<close>

record env =
  http :: "nat \<Rightarrow> outcome"
  auth :: "nat \<Rightarrow> auth_outcome"
  asset :: "nat \<Rightarrow> string option"
  tagger :: "nat \<Rightarrow> string list option"

text \<open>A value of a request's \<open>params\<close> dict.\<close>

datatype pval = PStr string | PInt int | PNone

type_synonym params = "(string \<times> pval) list"

text \<open>
  The effects the program has on the outside, in order: a transport request (URL, bearer
  token, params), a credential exchange, a pause, an asset fetch, a call of the tagging
  service, and the two log lines of the run controller (lines 330 and 361).
\<close>

datatype event =
    Http_get string string params
  | Token_post
  | Sleep real
  | Asset_get string
  | Tagger_post string
  | Log_artist int string
  | Log_artist_error string error

text \<open>
  The checkpoint file: absent; unreadable (\<open>open\<close> or \<open>json.load\<close> raises); the dict
  \<open>save_progress\<close> wrote; JSON that is not a dict (a list, a number, a string, a bool,
  \<open>null\<close>); or any other dict, given by what its two keys hold, \<open>None\<close> for an absent key.
  The value under \<open>last_artist_index\<close> is an int, a bool, \<open>null\<close>, or something else (a
  float, a string, a list, a dict); the value under \<open>last_offset\<close> is an int or \<open>null\<close>.
\<close>

record progress =
  last_artist_index :: int
  last_offset :: "int option"

datatype index_value = Int_index int | Bool_index bool | Null_index | Other_index

datatype progress_file =
    Missing
  | Garbled
  | Stored progress
  | Not_a_dict
  | Dict "index_value option" "int option option"

record world =
  http_n :: nat
  auth_n :: nat
  asset_n :: nat
  tagger_n :: nat
  conn :: ledger
  files :: "string \<Rightarrow> string option"
  progress_json :: progress_file
  trace :: "event list"

definition emit :: "event \<Rightarrow> world \<Rightarrow> world" where
  "emit e w = w\<lparr>trace := trace w @ [e]\<rparr>"

text \<open>
  \<open>time.sleep\<close> of CPython converts its argument to a signed 64-bit count of nanoseconds,
  rounding away from zero: a NaN raises \<open>ValueError\<close>, a count that does not fit raises
  \<open>OverflowError\<close>, and only then a negative count raises \<open>ValueError\<close>. The product with
  \<open>10^9\<close> is exact here; CPython forms it in double arithmetic, so that a float within one
  rounding step of a bound may fall on the other side of it.
\<close>

definition py_sleep :: "pyfloat \<Rightarrow> world \<Rightarrow> error + world" where
  "py_sleep d w =
     (case d of
        NaN \<Rightarrow> Inl ValueError
      | Infinity \<Rightarrow> Inl OverflowError
      | Minus_infinity \<Rightarrow> Inl OverflowError
      | Finite x \<Rightarrow>
          if x * 10 ^ 9 < - (2 ^ 63) \<or> 2 ^ 63 - 1 < x * 10 ^ 9 then Inl OverflowError
          else if x < 0 then Inl ValueError
          else Inr (emit (Sleep x) w))"

text \<open>
  The same with an int argument: the count of nanoseconds fits exactly when the seconds
  lie between \<open>-9223372036\<close> and \<open>9223372036\<close>.
\<close>

definition py_sleep_int :: "int \<Rightarrow> world \<Rightarrow> error + world" where
  "py_sleep_int n w =
     (if n < - 9223372036 \<or> 9223372036 < n then Inl OverflowError
      else if n < 0 then Inl ValueError
      else Inr (emit (Sleep (of_int n)) w))"

text \<open>The arguments \<open>time.sleep\<close> accepts.\<close>

definition float_pause_ok :: "pyfloat \<Rightarrow> bool" where
  "float_pause_ok d =
     (case d of Finite x \<Rightarrow> 0 \<le> x \<and> x * 10 ^ 9 \<le> 2 ^ 63 - 1 | _ \<Rightarrow> False)"

definition int_pause_ok :: "int \<Rightarrow> bool" where
  "int_pause_ok n = (0 \<le> n \<and> n \<le> 9223372036)"

subsection \<open>Authentication (lines 114-125)\<close>

definition get_access_token :: "env \<Rightarrow> world \<Rightarrow> (error + string) \<times> world" where
  "get_access_token e w =
     (let w' = emit Token_post (w\<lparr>auth_n := Suc (auth_n w)\<rparr>) in
      case auth e (auth_n w) of
        Auth_error \<Rightarrow> (Inl HTTPError, w')
      | Token t \<Rightarrow> (Inr t, w'))"

subsection \<open>Rate-limited GET with refresh (lines 130-163)\<close>

text \<open>\<open>r.ok\<close>: \<open>raise_for_status\<close> raises exactly for the codes 400 to 599.\<close>

definition ok :: "int \<Rightarrow> bool" where
  "ok status_code = (\<not> (400 \<le> status_code \<and> status_code < 600))"


text \<open>
  How one pass through the loop body ends: with \<open>return\<close>, with an exception that leaves
  the function, or at the top of the loop again with the token now held.
\<close>

datatype step = Return body | Raise error | Continue string

text \<open>
  A pause before the next pass: the exception of \<open>time.sleep\<close> is none of those the
  handler of line 158 catches, so it leaves the function.
\<close>

definition sleep_continue :: "error + world \<Rightarrow> string \<Rightarrow> world \<Rightarrow> step \<times> world" where
  "sleep_continue slept token w =
     (case slept of Inl e \<Rightarrow> (Raise e, w) | Inr w' \<Rightarrow> (Continue token, w'))"

text \<open>
  Lines 133-161, one pass; every pass that does not leave the function has incremented
  \<open>retries\<close> by one, which the loop below does. The exception of a failed refresh is an
  \<open>HTTPError\<close> or \<open>RequestException\<close> and lands in the handler of line 158.
\<close>

definition attempt ::
  "config \<Rightarrow> env \<Rightarrow> string \<Rightarrow> params \<Rightarrow> string \<Rightarrow> int \<Rightarrow> world \<Rightarrow> step \<times> world" where
  "attempt cfg e url' ps token retries w =
     (let w1 = emit (Http_get url' token ps) (w\<lparr>http_n := Suc (http_n w)\<rparr>) in
      case http e (http_n w) of
        RequestException \<Rightarrow> sleep_continue (py_sleep (SLEEP_TIME cfg) w1) token w1
      | Response status_code data \<Rightarrow>
          if status_code = 429 then
            sleep_continue (py_sleep_int (RATE_LIMIT_SLEEP cfg * (retries + 1)) w1) token w1
          else if status_code = 401 then
            (case get_access_token e w1 of
               (Inr token', w2) \<Rightarrow> (Continue token', w2)
             | (Inl err, w2) \<Rightarrow> sleep_continue (py_sleep (SLEEP_TIME cfg) w2) token w2)
          else if \<not> ok status_code then
            sleep_continue (py_sleep (SLEEP_TIME cfg) w1) token w1
          else (Return data, w1))"

function get_loop ::
  "config \<Rightarrow> env \<Rightarrow> string \<Rightarrow> params \<Rightarrow> string \<Rightarrow> int \<Rightarrow> world \<Rightarrow> (error + body) \<times> world" where
  "get_loop cfg e url' ps token retries w =
     (if retries < MAX_RETRIES cfg then
        (case attempt cfg e url' ps token retries w of
           (Return data, w') \<Rightarrow> (Inr data, w')
         | (Raise err, w') \<Rightarrow> (Inl err, w')
         | (Continue token', w') \<Rightarrow> get_loop cfg e url' ps token' (retries + 1) w')
      else (Inl (RuntimeError (MAX_RETRIES cfg) url'), w))"
  by pat_completeness auto
termination
  by (relation "measure (\<lambda>(cfg, e, url', ps, token, retries, w). nat (MAX_RETRIES cfg - retries))")
    auto

declare get_loop.simps [simp del]

definition deviantart_get ::
  "config \<Rightarrow> env \<Rightarrow> string \<Rightarrow> string \<Rightarrow> params \<Rightarrow> world \<Rightarrow> (error + body) \<times> world" where
  "deviantart_get cfg e url' token ps w = get_loop cfg e url' ps token 0 w"

text \<open>The number of transport requests among some events.\<close>

fun is_get :: "event \<Rightarrow> bool" where
  "is_get (Http_get u t ps) = True"
| "is_get ev = False"

definition count_gets :: "event list \<Rightarrow> nat" where
  "count_gets evs = length (filter is_get evs)"

text \<open>The events a transport call for a given URL and params can have.\<close>

fun transport_event :: "string \<Rightarrow> params \<Rightarrow> event \<Rightarrow> bool" where
  "transport_event u ps (Http_get u' t ps') = (u' = u \<and> ps' = ps)"
| "transport_event u ps Token_post = True"
| "transport_event u ps (Sleep d) = True"
| "transport_event u ps ev = False"

text \<open>Two worlds that agree on the ledger, the files, the checkpoint and the asset and
  tagger counters.\<close>

definition same_store :: "world \<Rightarrow> world \<Rightarrow> bool" where
  "same_store w w' = (conn w' = conn w \<and> files w' = files w \<and> progress_json w' = progress_json w
     \<and> asset_n w' = asset_n w \<and> tagger_n w' = tagger_n w)"

subsection \<open>Checkpoint (lines 169-185)\<close>

text \<open>
  \<open>load_progress\<close> returns whatever JSON the file holds, or the default dict when a
  re-check is forced, the file is missing or reading it raises. \<open>save_progress\<close>
  overwrites the file; its handler for a failed write is not modelled, the write always
  succeeds.
\<close>

definition default_progress :: progress_file where
  "default_progress = Stored \<lparr>last_artist_index = 0, last_offset = Some 0\<rparr>"

definition load_progress :: "config \<Rightarrow> world \<Rightarrow> progress_file" where
  "load_progress cfg w =
     (if FORCE_RECHECK cfg \<or> progress_json w = Missing then default_progress
      else (case progress_json w of
              Missing \<Rightarrow> default_progress
            | Garbled \<Rightarrow> default_progress
            | loaded \<Rightarrow> loaded))"

definition save_progress :: "int \<Rightarrow> int option \<Rightarrow> world \<Rightarrow> world" where
  "save_progress idx off w =
     w\<lparr>progress_json := Stored \<lparr>last_artist_index = idx, last_offset = off\<rparr>\<rparr>"

subsection \<open>Fetch followed artists (lines 190-206)\<close>

definition friends_url :: "config \<Rightarrow> string" where
  "friends_url cfg = ''https://www.deviantart.com/api/v1/oauth2/user/friends/'' @ USERNAME cfg"

text \<open>An offset as a value of the params dict: \<open>None\<close> stays \<open>None\<close>.\<close>

fun offset_pval :: "int option \<Rightarrow> pval" where
  "offset_pval None = PNone"
| "offset_pval (Some n) = PInt n"

text \<open>
  A list comprehension over subscripts \<open>x[k]\<close>: the \<open>KeyError\<close> of the first element
  without the key leaves the comprehension.
\<close>

fun subscripts :: "string \<Rightarrow> string option list \<Rightarrow> error + string list" where
  "subscripts k [] = Inr []"
| "subscripts k (None # xs) = Inl (KeyError k)"
| "subscripts k (Some v # xs) =
     (case subscripts k xs of Inl err \<Rightarrow> Inl err | Inr vs \<Rightarrow> Inr (v # vs))"

text \<open>
  The \<open>while True\<close> loop of lines 196-205, with fuel: \<open>None\<close> when the loop has not ended
  after \<open>fuel\<close> pages.
\<close>

fun friends_loop ::
  "config \<Rightarrow> env \<Rightarrow> nat \<Rightarrow> string \<Rightarrow> int option \<Rightarrow> string list \<Rightarrow> world
     \<Rightarrow> ((error + string list) \<times> world) option" where
  "friends_loop cfg e 0 token offset artists w = None"
| "friends_loop cfg e (Suc fuel) token offset artists w =
     (case deviantart_get cfg e (friends_url cfg) token
             [(''access_token'', PStr token), (''offset'', offset_pval offset),
              (''limit'', PInt 24)] w of
        (Inl err, w1) \<Rightarrow> Some (Inl err, w1)
      | (Inr data, w1) \<Rightarrow>
          (case subscripts ''username'' (map key_username (key_results data)) of
             Inl err \<Rightarrow> Some (Inl err, w1)
           | Inr batch \<Rightarrow>
               if \<not> key_has_more data then Some (Inr (artists @ batch), w1)
               else (case py_sleep (SLEEP_TIME cfg) w1 of
                       Inl err \<Rightarrow> Some (Inl err, w1)
                     | Inr w2 \<Rightarrow>
                         friends_loop cfg e fuel token (key_next_offset data)
                           (artists @ batch) w2)))"

definition get_followed_artists ::
  "config \<Rightarrow> env \<Rightarrow> nat \<Rightarrow> string \<Rightarrow> world \<Rightarrow> ((error + string list) \<times> world) option" where
  "get_followed_artists cfg e fuel token w = friends_loop cfg e fuel token (Some 0) [] w"

subsection \<open>Save deviation (lines 211-314)\<close>

definition meta_url :: string where
  "meta_url = ''https://www.deviantart.com/api/v1/oauth2/deviation/metadata''"

text \<open>Paths below \<open>SAVE_DIR\<close>.\<close>

definition txt_path :: "string \<Rightarrow> string \<Rightarrow> string" where
  "txt_path artist' deviation_id = artist' @ ''/'' @ deviation_id @ ''.txt''"

definition img_path :: "string \<Rightarrow> string \<Rightarrow> string" where
  "img_path artist' deviation_id = artist' @ ''/'' @ deviation_id @ ''.jpg''"

text \<open>Lines 227-233: the truth value of \<open>is_premium\<close>.\<close>

definition premium :: "entry \<Rightarrow> bool" where
  "premium deviation =
     (key_premium_content deviation
      \<or> key_premium_folder_data deviation
      \<or> key_is_downloadable deviation = Some False
      \<or> key_content deviation = []
      \<or> (case map_of (key_content deviation) ''src'' of
            None \<Rightarrow> True
          | Some src \<Rightarrow> src = ''''))"

text \<open>
  Lines 249-264: the metadata request, any exception of which gives the empty dict, and
  the tag names of its first entry.
\<close>

definition fetch_tags ::
  "config \<Rightarrow> env \<Rightarrow> string \<Rightarrow> string \<Rightarrow> world \<Rightarrow> (error + string list) \<times> world" where
  "fetch_tags cfg e token deviation_id w =
     (case deviantart_get cfg e meta_url token
             [(''access_token'', PStr token), (''deviationids[]'', PStr deviation_id),
              (''mature_content'', PStr ''true'')] w of
        (r, w1) \<Rightarrow>
          (case (case r of Inl err \<Rightarrow> [] | Inr data \<Rightarrow> key_metadata data) of
             [] \<Rightarrow> (Inr [], w1)
           | ts # rest \<Rightarrow> (subscripts ''tag_name'' ts, w1)))"

text \<open>Lines 272-276: the text of the sidecar file; \<open>f"{url}"\<close> prints \<open>None\<close> as such.\<close>

definition sidecar_text :: "string \<Rightarrow> string \<Rightarrow> string option \<Rightarrow> string list \<Rightarrow> string" where
  "sidecar_text title' artist' url' tags' =
     ''title: '' @ title' @ [CHR 0x0A] @ ''artist: '' @ artist' @ [CHR 0x0A]
     @ ''url: '' @ (case url' of None \<Rightarrow> ''None'' | Some u \<Rightarrow> u) @ [CHR 0x0A, CHR 0x0A]
     @ join_lines tags' @ [CHR 0x0A]"

text \<open>
  Lines 279-285: \<open>content["src"]\<close> raises inside the \<open>try\<close> when the key is missing; a
  failed fetch only logs a warning.
\<close>

definition save_image :: "env \<Rightarrow> (string \<times> string) list \<Rightarrow> string \<Rightarrow> world \<Rightarrow> world" where
  "save_image e content path w =
     (case map_of content ''src'' of
        None \<Rightarrow> w
      | Some src \<Rightarrow>
          (let w1 = emit (Asset_get src) (w\<lparr>asset_n := Suc (asset_n w)\<rparr>) in
           case asset e (asset_n w) of
             None \<Rightarrow> w1
           | Some bytes \<Rightarrow> w1\<lparr>files := (files w1)(path \<mapsto> bytes)\<rparr>))"

text \<open>
  Lines 287-311: opening a missing image raises inside the \<open>try\<close>; the labels, when the
  service returns any, are appended to the sidecar file.
\<close>

definition run_tagger :: "env \<Rightarrow> string \<Rightarrow> string \<Rightarrow> world \<Rightarrow> world" where
  "run_tagger e txt img w =
     (case files w img of
        None \<Rightarrow> w
      | Some bytes \<Rightarrow>
          (let w1 = emit (Tagger_post img) (w\<lparr>tagger_n := Suc (tagger_n w)\<rparr>) in
           case tagger e (tagger_n w) of
             None \<Rightarrow> w1
           | Some ai_tags \<Rightarrow>
               if ai_tags = [] then w1
               else w1\<lparr>files := (files w1)(txt \<mapsto>
                      (case files w1 txt of None \<Rightarrow> '''' | Some old \<Rightarrow> old)
                      @ [CHR 0x0A] @ ''# AI tags'' @ [CHR 0x0A]
                      @ join_lines ai_tags @ [CHR 0x0A])\<rparr>))"

text \<open>Lines 248-314: everything after the classification.\<close>

definition download ::
  "config \<Rightarrow> env \<Rightarrow> string \<Rightarrow> string \<Rightarrow> string \<Rightarrow> string \<Rightarrow> string option
     \<Rightarrow> (string \<times> string) list \<Rightarrow> world \<Rightarrow> (error + unit) \<times> world" where
  "download cfg e token artist' deviation_id title' url' content w =
     (case fetch_tags cfg e token deviation_id w of
        (Inl err, w1) \<Rightarrow> (Inl err, w1)
      | (Inr tags', w1) \<Rightarrow>
          (let txt = txt_path artist' deviation_id;
               img = img_path artist' deviation_id;
               w2 = w1\<lparr>files := (files w1)(txt \<mapsto> sidecar_text title' artist' url' tags')\<rparr>;
               w3 = save_image e content img w2;
               w4 = run_tagger e txt img w3
           in (Inr (),
               w4\<lparr>conn := mark_downloaded deviation_id artist' title' url' tags' (conn w4)\<rparr>)))"

definition save_deviation ::
  "config \<Rightarrow> env \<Rightarrow> string \<Rightarrow> string \<Rightarrow> entry \<Rightarrow> world \<Rightarrow> (error + unit) \<times> world" where
  "save_deviation cfg e token artist' deviation w =
     (case key_deviationid deviation of
        None \<Rightarrow> (Inl (KeyError ''deviationid''), w)
      | Some deviation_id \<Rightarrow>
          (let title' = (case key_title deviation of None \<Rightarrow> ''untitled'' | Some t \<Rightarrow> t);
               content = key_content deviation;
               url' = key_url deviation
           in if is_subscription (conn w) deviation_id then (Inr (), w)
              else if is_downloaded (conn w) deviation_id then (Inr (), w)
              else if premium deviation then
                (let w1 = w\<lparr>conn := mark_subscription deviation_id artist' title' url' (conn w)\<rparr>
                 in if \<not> DOWNLOAD_SUBSCRIPTIONS cfg then (Inr (), w1)
                    else download cfg e token artist' deviation_id title' url' content w1)
              else download cfg e token artist' deviation_id title' url' content w))"

subsection \<open>Main (lines 320-364)\<close>

definition gallery_url :: string where
  "gallery_url = ''https://www.deviantart.com/api/v1/oauth2/gallery/all''"

text \<open>Lines 347-349: every item of a page, with a pause after each.\<close>

fun save_all ::
  "config \<Rightarrow> env \<Rightarrow> string \<Rightarrow> string \<Rightarrow> entry list \<Rightarrow> world \<Rightarrow> (error + unit) \<times> world" where
  "save_all cfg e token artist' [] w = (Inr (), w)"
| "save_all cfg e token artist' (deviation # rest) w =
     (case save_deviation cfg e token artist' deviation w of
        (Inl err, w1) \<Rightarrow> (Inl err, w1)
      | (Inr u, w1) \<Rightarrow>
          (case py_sleep (SLEEP_TIME cfg) w1 of
             Inl err \<Rightarrow> (Inl err, w1)
           | Inr w2 \<Rightarrow> save_all cfg e token artist' rest w2))"

text \<open>
  The \<open>while has_more\<close> loop of lines 339-355, entered with \<open>has_more = True\<close>, with fuel.
\<close>

fun walk_gallery ::
  "config \<Rightarrow> env \<Rightarrow> nat \<Rightarrow> string \<Rightarrow> int \<Rightarrow> string \<Rightarrow> int option \<Rightarrow> world
     \<Rightarrow> ((error + unit) \<times> world) option" where
  "walk_gallery cfg e 0 token idx artist' current_offset w = None"
| "walk_gallery cfg e (Suc fuel) token idx artist' current_offset w =
     (case deviantart_get cfg e gallery_url token
             [(''username'', PStr artist'), (''access_token'', PStr token),
              (''offset'', offset_pval current_offset), (''limit'', PInt 24)] w of
        (Inl err, w1) \<Rightarrow> Some (Inl err, w1)
      | (Inr data, w1) \<Rightarrow>
          if key_results data = [] then Some (Inr (), w1)
          else (case save_all cfg e token artist' (key_results data) w1 of
                  (Inl err, w2) \<Rightarrow> Some (Inl err, w2)
                | (Inr u, w2) \<Rightarrow>
                    (let w3 = save_progress idx (key_next_offset data) w2 in
                     if key_has_more data
                     then walk_gallery cfg e fuel token idx artist' (key_next_offset data) w3
                     else Some (Inr (), w3))))"

text \<open>Python's \<open>xs[i:]\<close> and \<open>enumerate(xs, start=i)\<close>.\<close>

definition slice_from :: "'a list \<Rightarrow> int \<Rightarrow> 'a list" where
  "slice_from xs i = drop (nat (if i < 0 then int (length xs) + i else i)) xs"

fun enumerate_from :: "int \<Rightarrow> 'a list \<Rightarrow> (int \<times> 'a) list" where
  "enumerate_from i [] = []"
| "enumerate_from i (x # xs) = (i, x) # enumerate_from (i + 1) xs"

text \<open>
  The \<open>for\<close> loop of lines 329-361 over the enumerated artists. The handler of line 360
  catches every exception of the walk and logs it; \<open>start_offset\<close> is reset only when the
  walk ended without one.
\<close>

fun for_artists ::
  "config \<Rightarrow> env \<Rightarrow> nat \<Rightarrow> string \<Rightarrow> int \<Rightarrow> int option \<Rightarrow> (int \<times> string) list \<Rightarrow> world
     \<Rightarrow> world option" where
  "for_artists cfg e fuel token start_artist_idx start_offset [] w = Some w"
| "for_artists cfg e fuel token start_artist_idx start_offset ((idx, artist') # rest) w =
     (case walk_gallery cfg e fuel token idx artist'
             (if idx = start_artist_idx then start_offset else Some 0)
             (emit (Log_artist idx artist') w) of
        None \<Rightarrow> None
      | Some (Inl err, w1) \<Rightarrow>
          for_artists cfg e fuel token start_artist_idx start_offset rest
            (emit (Log_artist_error artist' err) w1)
      | Some (Inr u, w1) \<Rightarrow>
          for_artists cfg e fuel token start_artist_idx (Some 0) rest w1)"

text \<open>
  Lines 326-329, which stand outside every \<open>try\<close>: the two \<open>progress.get\<close> calls raise
  \<open>AttributeError\<close> when the loaded JSON is not a dict; an absent key gives the default
  \<open>0\<close>; \<open>artists[start_artist_idx:]\<close> raises \<open>TypeError\<close> unless the index is an int, a
  bool (\<open>True\<close> is \<open>1\<close>) or \<open>None\<close>, and \<open>enumerate(..., start=None)\<close> raises \<open>TypeError\<close>
  too. For a missing or unreadable file \<open>load_progress\<close> has returned the default dict.
\<close>

fun start_position :: "progress_file \<Rightarrow> error + (int \<times> int option)" where
  "start_position (Stored p) = Inr (last_artist_index p, last_offset p)"
| "start_position (Dict i off) =
     (case (case i of None \<Rightarrow> Int_index 0 | Some v \<Rightarrow> v) of
        Int_index n \<Rightarrow> Inr (n, case off of None \<Rightarrow> Some 0 | Some v \<Rightarrow> v)
      | Bool_index b \<Rightarrow>
          Inr (if b then 1 else 0, case off of None \<Rightarrow> Some 0 | Some v \<Rightarrow> v)
      | Null_index \<Rightarrow> Inl TypeError
      | Other_index \<Rightarrow> Inl TypeError)"
| "start_position Not_a_dict = Inl AttributeError"
| "start_position Missing = Inr (0, Some 0)"
| "start_position Garbled = Inr (0, Some 0)"

text \<open>Lines 325-364: from the checkpoint to the final reset of the checkpoint.\<close>

definition run_artists ::
  "config \<Rightarrow> env \<Rightarrow> nat \<Rightarrow> string \<Rightarrow> string list \<Rightarrow> world
     \<Rightarrow> ((error + unit) \<times> world) option" where
  "run_artists cfg e fuel token artists w =
     (case start_position (load_progress cfg w) of
        Inl err \<Rightarrow> Some (Inl err, w)
      | Inr (start_artist_idx, start_offset) \<Rightarrow>
          (case for_artists cfg e fuel token start_artist_idx start_offset
                  (enumerate_from start_artist_idx (slice_from artists start_artist_idx)) w of
             None \<Rightarrow> None
           | Some w' \<Rightarrow> Some (Inr (), save_progress 0 (Some 0) w')))"

definition main :: "config \<Rightarrow> env \<Rightarrow> nat \<Rightarrow> world \<Rightarrow> ((error + unit) \<times> world) option" where
  "main cfg e fuel w =
     (case get_access_token e w of
        (Inl err, w1) \<Rightarrow> Some (Inl err, w1)
      | (Inr token, w1) \<Rightarrow>
          (case get_followed_artists cfg e fuel token w1 of
             None \<Rightarrow> None
           | Some (Inl err, w2) \<Rightarrow> Some (Inl err, w2)
           | Some (Inr artists, w2) \<Rightarrow> run_artists cfg e fuel token artists w2))"

subsection \<open>The run controller in the spec's words\<close>

text \<open>
  Following the spec's words (section 4.6), not the source: the creators are walked in
  order, each from offset 0; an error of a creator's walk is caught and logged and does
  not abort the run, the controller advances to the next creator. It is compared below
  with \<open>for_artists\<close>, the loop of the source.
\<close>

fun spec_walk_from_zero ::
  "config \<Rightarrow> env \<Rightarrow> nat \<Rightarrow> string \<Rightarrow> (int \<times> string) list \<Rightarrow> world \<Rightarrow> world option" where
  "spec_walk_from_zero cfg e fuel token [] w = Some w"
| "spec_walk_from_zero cfg e fuel token ((idx, creator) # later) w =
     (case walk_gallery cfg e fuel token idx creator (Some 0)
             (emit (Log_artist idx creator) w) of
        None \<Rightarrow> None
      | Some (Inl err, w1) \<Rightarrow>
          spec_walk_from_zero cfg e fuel token later (emit (Log_artist_error creator err) w1)
      | Some (Inr u, w1) \<Rightarrow> spec_walk_from_zero cfg e fuel token later w1)"

subsection \<open>Reading the trace\<close>

text \<open>
  The events an item can cause (\<open>save_deviation\<close> and the pause after it): no request to
  a URL other than the metadata endpoint, and no log line of the run controller.
\<close>

fun item_event :: "event \<Rightarrow> bool" where
  "item_event (Http_get u t ps) = (u = meta_url)"
| "item_event (Log_artist i a) = False"
| "item_event (Log_artist_error a err) = False"
| "item_event ev = True"

text \<open>The world \<open>w'\<close> comes after \<open>w\<close> by events that all satisfy \<open>P\<close>.\<close>

definition extends :: "(event \<Rightarrow> bool) \<Rightarrow> world \<Rightarrow> world \<Rightarrow> bool" where
  "extends P w w' = (\<exists>evs. trace w' = trace w @ evs \<and> list_all P evs)"

subsection \<open>Concrete scenarios\<close>

text \<open>
  The configuration with the defaults of lines 18-23, a world in which nothing has
  happened yet, and remote sides that answer in fixed ways.
\<close>

definition cfg0 :: config where
  "cfg0 = \<lparr>USERNAME = ''me'', SLEEP_TIME = Finite 1, MAX_RETRIES = 5, RATE_LIMIT_SLEEP = 30,
     FORCE_RECHECK = False, DOWNLOAD_SUBSCRIPTIONS = False\<rparr>"

definition w0 :: world where
  "w0 = \<lparr>http_n = 0, auth_n = 0, asset_n = 0, tagger_n = 0, conn = [],
     files = (\<lambda>p. None), progress_json = Missing, trace = []\<rparr>"

definition empty_body :: body where
  "empty_body = \<lparr>key_results = [], key_has_more = False, key_next_offset = Some 0,
     key_metadata = []\<rparr>"

text \<open>Every transport request is answered with status 429.\<close>

definition env_429 :: env where
  "env_429 = \<lparr>http = (\<lambda>n. Response 429 empty_body), auth = (\<lambda>n. Token ''new''),
     asset = (\<lambda>n. None), tagger = (\<lambda>n. None)\<rparr>"

text \<open>The first transport request is answered with status 401, every later one with 200.\<close>

definition env_401_then_ok :: env where
  "env_401_then_ok =
     \<lparr>http = (\<lambda>n. if n = 0 then Response 401 empty_body else Response 200 empty_body),
      auth = (\<lambda>n. Token ''new''), asset = (\<lambda>n. None), tagger = (\<lambda>n. None)\<rparr>"


text \<open>An item with the premium marker and no content, and a world whose ledger flags it.\<close>

definition premium_item :: entry where
  "premium_item =
     \<lparr>key_username = None, key_deviationid = Some ''d1'', key_title = Some ''locked'',
      key_url = Some ''http://x/d1'', key_content = [], key_premium_content = True,
      key_premium_folder_data = False, key_is_downloadable = None\<rparr>"

definition w_flagged :: world where
  "w_flagged =
     w0\<lparr>conn := [\<lparr>deviationid = ''d1'', artist = ''alice'', title = ''locked'',
                  url = Some ''http://x/d1'', tags = '''', is_premium = 1\<rparr>]\<rparr>"

text \<open>
  The first page is empty but declares more results; every later page is empty and
  declares none.
\<close>

definition env_empty_page :: env where
  "env_empty_page =
     \<lparr>http = (\<lambda>n. if n = 0
         then Response 200 \<lparr>key_results = [], key_has_more = True, key_next_offset = Some 24,
                key_metadata = []\<rparr>
         else Response 200 empty_body),
      auth = (\<lambda>n. Token ''new''), asset = (\<lambda>n. None), tagger = (\<lambda>n. None)\<rparr>"

text \<open>Every page is empty and last; every page holds the premium item and is last.\<close>

definition env_done :: env where
  "env_done = \<lparr>http = (\<lambda>n. Response 200 empty_body), auth = (\<lambda>n. Token ''new''),
     asset = (\<lambda>n. None), tagger = (\<lambda>n. None)\<rparr>"

definition one_page :: body where
  "one_page = \<lparr>key_results = [premium_item], key_has_more = False, key_next_offset = None,
     key_metadata = []\<rparr>"

definition env_one_page :: env where
  "env_one_page = \<lparr>http = (\<lambda>n. Response 200 one_page), auth = (\<lambda>n. Token ''new''),
     asset = (\<lambda>n. None), tagger = (\<lambda>n. None)\<rparr>"

text \<open>
  The token has expired: the first request is answered with status 401; the second gets a
  page with the premium item that declares more results; every later page is empty.
\<close>

definition env_expired :: env where
  "env_expired =
     \<lparr>http = (\<lambda>n. if n = 0 then Response 401 empty_body
         else if n = 1
         then Response 200 \<lparr>key_results = [premium_item], key_has_more = True,
                key_next_offset = Some 24, key_metadata = []\<rparr>
         else Response 200 empty_body),
      auth = (\<lambda>n. Token ''new''), asset = (\<lambda>n. None), tagger = (\<lambda>n. None)\<rparr>"

text \<open>
  A world with the checkpoint \<open>(2, 10)\<close>; a remote side whose credential exchange fails;
  and the world after a walk for \<open>alice\<close> that was rate-limited to exhaustion.
\<close>

definition w_checkpoint :: world where
  "w_checkpoint =
     w0\<lparr>progress_json := Stored \<lparr>last_artist_index = 2, last_offset = Some 10\<rparr>\<rparr>"

definition env_no_auth :: env where
  "env_no_auth = \<lparr>http = (\<lambda>n. Response 200 empty_body), auth = (\<lambda>n. Auth_error),
     asset = (\<lambda>n. None), tagger = (\<lambda>n. None)\<rparr>"

definition alice_page :: event where
  "alice_page = Http_get gallery_url ''old''
     [(''username'', PStr ''alice''), (''access_token'', PStr ''old''),
      (''offset'', PInt 0), (''limit'', PInt 24)]"

definition w_exhausted :: world where
  "w_exhausted =
     w0\<lparr>http_n := 5,
        trace := [Log_artist 0 ''alice'', alice_page, Sleep 30, alice_page, Sleep 60,
                  alice_page, Sleep 90, alice_page, Sleep 120, alice_page, Sleep 150]\<rparr>"

text \<open>The same for \<open>bob\<close> after \<open>alice\<close>: both walks rate-limited to exhaustion.\<close>

definition bob_page :: event where
  "bob_page = Http_get gallery_url ''old''
     [(''username'', PStr ''bob''), (''access_token'', PStr ''old''),
      (''offset'', PInt 0), (''limit'', PInt 24)]"

definition bob_events :: "event list" where
  "bob_events =
     [Log_artist 1 ''bob'', bob_page, Sleep 30, bob_page, Sleep 60, bob_page, Sleep 90,
      bob_page, Sleep 120, bob_page, Sleep 150,
      Log_artist_error ''bob'' (RuntimeError 5 gallery_url)]"

definition w_both_exhausted :: world where
  "w_both_exhausted =
     w0\<lparr>http_n := 10,
        trace := trace w_exhausted
          @ Log_artist_error ''alice'' (RuntimeError 5 gallery_url) # bob_events\<rparr>"

section \<open>Properties of the Ledger\<close>

lemma insert_or_ignore_present:
  "i \<in> set (map deviationid db) \<Longrightarrow> deviationid r = i \<Longrightarrow> insert_or_ignore r db = db"
  by (simp add: insert_or_ignore_def)

lemma insert_or_ignore_keys:
  "set (map deviationid (insert_or_ignore r db)) = insert (deviationid r) (set (map deviationid db))"
  by (auto simp: insert_or_ignore_def)

lemma insert_or_ignore_distinct:
  "distinct (map deviationid db) \<Longrightarrow> distinct (map deviationid (insert_or_ignore r db))"
  by (auto simp: insert_or_ignore_def)

lemma record_call_insert: "record_call i c db = insert_or_ignore (row_of_call i c) db"
  by (cases c) (simp_all add: mark_subscription_def mark_downloaded_def)

lemma row_of_call_key: "deviationid (row_of_call i c) = i"
  by (cases c) simp_all

lemma filter_key_absent:
  "i \<notin> set (map deviationid db) \<Longrightarrow> filter (\<lambda>r. deviationid r = i) db = []"
  by (induction db) auto

lemma filter_key_distinct:
  "distinct (map deviationid db) \<Longrightarrow> i \<in> set (map deviationid db) \<Longrightarrow>
   length (filter (\<lambda>r. deviationid r = i) db) = 1"
proof (induction db)
  case Nil
  then show ?case by simp
next
  case (Cons r db)
  show ?case
  proof (cases "deviationid r = i")
    case True
    with Cons.prems have "i \<notin> set (map deviationid db)" by auto
    with True show ?thesis by (simp add: filter_key_absent)
  next
    case False
    with Cons show ?thesis by auto
  qed
qed

text \<open>
  C3. On a table whose keys are unique (the primary-key constraint), two recording calls
  with the same identifier, in any combination of \<open>mark_subscription\<close> and
  \<open>mark_downloaded\<close> and with any field values: the second call changes nothing, the
  table holds exactly one row with that identifier, and when the identifier was new that
  row is the one the first call wrote.
\<close>

theorem ledger_record_twice:
  assumes "distinct (map deviationid db)"
  shows "record_call i c2 (record_call i c1 db) = record_call i c1 db
    \<and> length (filter (\<lambda>r. deviationid r = i) (record_call i c2 (record_call i c1 db))) = 1
    \<and> (i \<notin> set (map deviationid db) \<longrightarrow>
         filter (\<lambda>r. deviationid r = i) (record_call i c2 (record_call i c1 db))
           = [row_of_call i c1])"
proof -
  let ?db1 = "record_call i c1 db"
  have keys: "i \<in> set (map deviationid ?db1)"
    unfolding record_call_insert insert_or_ignore_keys by (simp add: row_of_call_key)
  have noop: "record_call i c2 ?db1 = ?db1"
    unfolding record_call_insert [of i c2]
    using keys by (rule insert_or_ignore_present) (rule row_of_call_key)
  have dist: "distinct (map deviationid ?db1)"
    using assms by (simp add: record_call_insert insert_or_ignore_distinct)
  have one: "length (filter (\<lambda>r. deviationid r = i) ?db1) = 1"
    using dist keys by (rule filter_key_distinct)
  have first: "filter (\<lambda>r. deviationid r = i) ?db1 = [row_of_call i c1]"
    if "i \<notin> set (map deviationid db)"
    using that
    by (simp add: record_call_insert insert_or_ignore_def row_of_call_key filter_key_absent)
  from noop one first show ?thesis by simp
qed

theorem ledger_record_twice_witness:
  "record_call ''d1'' (Record_downloaded ''bob'' ''later'' None [''x''])
     (record_call ''d1'' (Record_restricted ''alice'' ''first'' (Some ''http://x/1'')) [])
     = [\<lparr>deviationid = ''d1'', artist = ''alice'', title = ''first'',
         url = Some ''http://x/1'', tags = '''', is_premium = 1\<rparr>]"
  using ledger_record_twice [of "[]" "''d1''"
      "Record_downloaded ''bob'' ''later'' None [''x'']"
      "Record_restricted ''alice'' ''first'' (Some ''http://x/1'')"]
  by (simp add: mark_subscription_def insert_or_ignore_def)

text \<open>
  C9. Opening a database file without the table \<open>downloads\<close> fails: the \<open>ALTER TABLE\<close>
  of the migration step runs before \<open>CREATE TABLE IF NOT EXISTS\<close>, its error message is
  not the duplicate-column one, and the handler re-raises it. A file that has the table,
  in either shape, opens.
\<close>

theorem init_db_fresh_fails:
  "init_db No_table = Inl (OperationalError ''no such table: downloads'')
   \<and> init_db (Legacy_table rs) = Inr (Table (map add_default rs))
   \<and> init_db (Table rows) = Inr (Table rows)
   \<and> ((\<exists>s'. init_db s = Inr s') \<longleftrightarrow> s \<noteq> No_table)"
proof -
  have a: "init_db No_table = Inl (OperationalError ''no such table: downloads'')"
    by (simp add: init_db_def add_is_premium_column_if_missing_def sublist_code)
  have b: "init_db (Legacy_table xs) = Inr (Table (map add_default xs))" for xs
    by (simp add: init_db_def add_is_premium_column_if_missing_def)
  have c: "init_db (Table xs) = Inr (Table xs)" for xs
    by (simp add: init_db_def add_is_premium_column_if_missing_def sublist_code)
  have d: "(\<exists>s'. init_db s = Inr s') \<longleftrightarrow> s \<noteq> No_table"
    by (cases s) (simp_all add: a b c)
  from a b c d show ?thesis by simp
qed

section \<open>Properties of the transport\<close>


lemma emit_fields [simp]:
  "trace (emit ev w) = trace w @ [ev]" "http_n (emit ev w) = http_n w"
  "auth_n (emit ev w) = auth_n w" "asset_n (emit ev w) = asset_n w"
  "tagger_n (emit ev w) = tagger_n w" "conn (emit ev w) = conn w"
  "files (emit ev w) = files w" "progress_json (emit ev w) = progress_json w"
  by (simp_all add: emit_def)

lemma not_ok_429 [simp]: "\<not> ok 429" "\<not> ok 401"
  by (simp_all add: ok_def)

lemma sleep_float_cases:
  assumes "sleep_continue (py_sleep d w) token w = (st, w')"
  shows "(\<exists>err. st = Raise err \<and> (err = ValueError \<or> err = OverflowError)
            \<and> \<not> float_pause_ok d \<and> w' = w)
    \<or> (st = Continue token \<and> float_pause_ok d \<and> (\<exists>x. w' = emit (Sleep x) w))"
proof (cases d)
  case (Finite x)
  with assms show ?thesis
    by (auto simp: sleep_continue_def py_sleep_def float_pause_ok_def split: if_splits)
qed (use assms in \<open>auto simp: sleep_continue_def py_sleep_def float_pause_ok_def\<close>)

lemma sleep_int_cases:
  assumes "sleep_continue (py_sleep_int n w) token w = (st, w')"
  shows "(\<exists>err. st = Raise err \<and> (err = ValueError \<or> err = OverflowError)
            \<and> \<not> int_pause_ok n \<and> w' = w)
    \<or> (st = Continue token \<and> int_pause_ok n \<and> w' = emit (Sleep (of_int n)) w)"
  using assms
  by (auto simp: sleep_continue_def py_sleep_int_def int_pause_ok_def split: if_splits)

lemma attempt_trace:
  assumes "attempt cfg e u ps token retries w = (st, w')"
  shows "\<exists>evs. trace w' = trace w @ Http_get u token ps # evs \<and> count_gets evs = 0
     \<and> list_all (transport_event u ps) evs \<and> http_n w' = Suc (http_n w) \<and> same_store w w'"
  using assms
  by (auto simp: attempt_def Let_def get_access_token_def count_gets_def same_store_def
      split: outcome.splits if_splits auth_outcome.splits dest!: sleep_float_cases sleep_int_cases)




lemma get_loop_exhausted:
  "\<not> retries < MAX_RETRIES cfg \<Longrightarrow>
   get_loop cfg e u ps token retries w = (Inl (RuntimeError (MAX_RETRIES cfg) u), w)"
  by (simp add: get_loop.simps)

lemma same_store_refl [simp]: "same_store w w"
  by (simp add: same_store_def)

lemma same_store_trans: "same_store w w1 \<Longrightarrow> same_store w1 w2 \<Longrightarrow> same_store w w2"
  by (simp add: same_store_def)

lemma count_gets_simps [simp]:
  "count_gets [] = 0" "count_gets (Http_get u t ps # evs) = Suc (count_gets evs)"
  "count_gets (evs @ evs') = count_gets evs + count_gets evs'"
  by (simp_all add: count_gets_def)

lemma get_loop_trace:
  "get_loop cfg e u ps token retries w = (r, w') \<Longrightarrow>
   \<exists>evs. trace w' = trace w @ evs \<and> list_all (transport_event u ps) evs
     \<and> http_n w' = http_n w + count_gets evs
     \<and> count_gets evs \<le> nat (MAX_RETRIES cfg - retries) \<and> same_store w w'"
proof (induction cfg e u ps token retries w rule: get_loop.induct)
  case (1 cfg e u ps token retries w)
  show ?case
  proof (cases "retries < MAX_RETRIES cfg")
    case False
    with "1.prems" show ?thesis by (simp add: get_loop_exhausted)
  next
    case True
    obtain st w1 where att: "attempt cfg e u ps token retries w = (st, w1)"
      by (cases "attempt cfg e u ps token retries w")
    from attempt_trace [OF att] obtain evs1 where
      e1: "trace w1 = trace w @ Http_get u token ps # evs1" "count_gets evs1 = 0"
        "list_all (transport_event u ps) evs1" "http_n w1 = Suc (http_n w)" "same_store w w1"
      by blast
    show ?thesis
    proof (cases st)
      case (Continue token')
      with True att "1.prems" have
        rec: "get_loop cfg e u ps token' (retries + 1) w1 = (r, w')"
        by (simp add: get_loop.simps [of cfg e u ps token retries w])
      from "1.IH" [OF True att [symmetric] _ rec] Continue obtain evs2 where
        e2: "trace w' = trace w1 @ evs2" "list_all (transport_event u ps) evs2"
          "http_n w' = http_n w1 + count_gets evs2"
          "count_gets evs2 \<le> nat (MAX_RETRIES cfg - (retries + 1))" "same_store w1 w'"
        by auto
      let ?evs = "Http_get u token ps # evs1 @ evs2"
      have "trace w' = trace w @ ?evs" using e1 e2 by simp
      moreover have "list_all (transport_event u ps) ?evs" using e1 e2 by simp
      moreover have "http_n w' = http_n w + count_gets ?evs" using e1 e2 by simp
      moreover have "count_gets ?evs \<le> nat (MAX_RETRIES cfg - retries)"
        using e1 e2 True by simp
      moreover have "same_store w w'" using e1 e2 by (blast intro: same_store_trans)
      ultimately show ?thesis by blast
    next
      case (Return data)
      with True att "1.prems" have "w' = w1"
        by (simp add: get_loop.simps [of cfg e u ps token retries w])
      with e1 True show ?thesis
        by (intro exI [of _ "Http_get u token ps # evs1"]) simp
    next
      case (Raise err)
      with True att "1.prems" have "w' = w1"
        by (simp add: get_loop.simps [of cfg e u ps token retries w])
      with e1 True show ?thesis
        by (intro exI [of _ "Http_get u token ps # evs1"]) simp
    qed
  qed
qed











text \<open>
  C1, as amended. When the first request of a call is answered with status 401, the
  credential exchange yields a token and the second request succeeds, the call makes
  exactly one credential exchange and exactly one further request, which carries the new
  token, and returns the body of that request. The call returns the body only: the new
  token stays local to the call.
\<close>

theorem token_refresh_once:
  assumes "http e (http_n w) = Response 401 d0" and "auth e (auth_n w) = Token token'"
    and "http e (Suc (http_n w)) = Response s data" and "ok s" and "2 \<le> MAX_RETRIES cfg"
  shows "deviantart_get cfg e u token ps w =
    (Inr data,
     w\<lparr>http_n := http_n w + 2, auth_n := auth_n w + 1,
       trace := trace w @ [Http_get u token ps, Token_post, Http_get u token' ps]\<rparr>)"
proof -
  let ?w1 = "emit Token_post
      (emit (Http_get u token ps) (w\<lparr>http_n := Suc (http_n w)\<rparr>)\<lparr>auth_n := Suc (auth_n w)\<rparr>)"
  have a1: "attempt cfg e u ps token 0 w = (Continue token', ?w1)"
    using assms(1,2) by (simp add: attempt_def get_access_token_def Let_def)
  from assms(4) have s: "s \<noteq> 429" "s \<noteq> 401" by auto
  have a2: "attempt cfg e u ps token' 1 ?w1 =
      (Return data, emit (Http_get u token' ps) (?w1\<lparr>http_n := Suc (http_n ?w1)\<rparr>))"
    using assms(3,4) s by (simp add: attempt_def Let_def)
  have "get_loop cfg e u ps token 0 w = get_loop cfg e u ps token' 1 ?w1"
    using assms(5) a1 by (simp add: get_loop.simps [of cfg e u ps token 0 w])
  also have "\<dots> = (Inr data, emit (Http_get u token' ps) (?w1\<lparr>http_n := Suc (http_n ?w1)\<rparr>))"
    using assms(5) a2 by (simp add: get_loop.simps [of cfg e u ps token' 1 ?w1])
  finally show ?thesis by (simp add: deviantart_get_def emit_def)
qed




theorem token_refresh_once_witness:
  "deviantart_get cfg0 env_401_then_ok ''https://x/api'' ''old'' [] w0 =
    (Inr empty_body,
     w0\<lparr>http_n := 2, auth_n := 1,
        trace := [Http_get ''https://x/api'' ''old'' [], Token_post,
                  Http_get ''https://x/api'' ''new'' []]\<rparr>)"
proof -
  have h1: "http env_401_then_ok (http_n w0) = Response 401 empty_body"
    by (simp add: env_401_then_ok_def w0_def)
  have h2: "auth env_401_then_ok (auth_n w0) = Token ''new''"
    by (simp add: env_401_then_ok_def)
  have h3: "http env_401_then_ok (Suc (http_n w0)) = Response 200 empty_body"
    by (simp add: env_401_then_ok_def w0_def)
  have h4: "ok 200" by (simp add: ok_def)
  have h5: "2 \<le> MAX_RETRIES cfg0" by (simp add: cfg0_def)
  from token_refresh_once [OF h1 h2 h3 h4 h5, of "''https://x/api''" "''old''" "[]"]
  show ?thesis by (simp add: w0_def)
qed

section \<open>Properties of the events and of the ledger across the run\<close>

lemma extends_refl [simp]: "extends P w w"
  by (simp add: extends_def)

lemma extends_trans: "extends P w w1 \<Longrightarrow> extends P w1 w2 \<Longrightarrow> extends P w w2"
  by (auto simp: extends_def)

lemma extends_mono: "extends P w w' \<Longrightarrow> (\<And>ev. P ev \<Longrightarrow> Q ev) \<Longrightarrow> extends Q w w'"
  by (auto simp: extends_def list_all_iff)

lemma extends_emit: "P ev \<Longrightarrow> extends P w (emit ev w)"
  by (simp add: extends_def)

lemma extends_trace_eq: "trace w' = trace w \<Longrightarrow> extends P w w'"
  by (simp add: extends_def)

lemma transport_item_event: "transport_event meta_url ps ev \<Longrightarrow> item_event ev"
  by (cases ev) simp_all

lemma py_sleep_Inr: "py_sleep d w = Inr w' \<Longrightarrow> \<exists>x. w' = emit (Sleep x) w"
  by (auto simp: py_sleep_def split: pyfloat.splits if_splits)

lemma deviantart_get_extends:
  assumes "deviantart_get cfg e u token ps w = (r, w')"
  shows "extends (transport_event u ps) w w'" and "same_store w w'"
  using get_loop_trace [of cfg e u ps token 0 w r w'] assms
  by (auto simp: deviantart_get_def extends_def)

lemma fetch_tags_extends:
  assumes "fetch_tags cfg e token i w = (r, w')"
  shows "extends item_event w w'" and "same_store w w'"
proof -
  let ?ps = "[(''access_token'', PStr token), (''deviationids[]'', PStr i),
              (''mature_content'', PStr ''true'')]"
  obtain r1 w1 where dg: "deviantart_get cfg e meta_url token ?ps w = (r1, w1)"
    by (cases "deviantart_get cfg e meta_url token ?ps w")
  with assms have "w' = w1"
    by (auto simp: fetch_tags_def split: list.splits)
  with deviantart_get_extends [OF dg]
  show "extends item_event w w'" and "same_store w w'"
    by (auto intro: extends_mono transport_item_event)
qed

lemma save_image_extends: "extends item_event w (save_image e content path w)"
  by (auto simp: save_image_def Let_def extends_def split: option.splits)

lemma save_image_conn [simp]: "conn (save_image e content path w) = conn w"
  by (simp add: save_image_def Let_def split: option.splits)

lemma run_tagger_extends: "extends item_event w (run_tagger e txt img w)"
  by (auto simp: run_tagger_def Let_def extends_def split: option.splits)

lemma run_tagger_conn [simp]: "conn (run_tagger e txt img w) = conn w"
  by (simp add: run_tagger_def Let_def split: option.splits)

lemma download_extends:
  assumes "download cfg e token a i t u content w = (r, w')"
  shows "extends item_event w w'"
proof -
  obtain r1 w1 where ft: "fetch_tags cfg e token i w = (r1, w1)"
    by (cases "fetch_tags cfg e token i w")
  note e1 = fetch_tags_extends(1) [OF ft]
  show ?thesis
  proof (cases r1)
    case (Inl err)
    with assms ft e1 show ?thesis by (simp add: download_def)
  next
    case (Inr tags')
    let ?w2 = "w1\<lparr>files := (files w1)(txt_path a i \<mapsto> sidecar_text t a u tags')\<rparr>"
    let ?w3 = "save_image e content (img_path a i) ?w2"
    let ?w4 = "run_tagger e (txt_path a i) (img_path a i) ?w3"
    from assms ft Inr have w': "w' = ?w4\<lparr>conn := mark_downloaded i a t u tags' (conn ?w4)\<rparr>"
      by (simp add: download_def Let_def)
    have "extends item_event w1 ?w2" by (rule extends_trace_eq) simp
    moreover have "extends item_event ?w2 ?w3" by (rule save_image_extends)
    moreover have "extends item_event ?w3 ?w4" by (rule run_tagger_extends)
    moreover have "extends item_event ?w4 w'" unfolding w' by (rule extends_trace_eq) simp
    ultimately show ?thesis using e1 by (blast intro: extends_trans)
  qed
qed

lemma save_deviation_extends:
  assumes "save_deviation cfg e token a d w = (r, w')"
  shows "extends item_event w w'"
proof (cases "key_deviationid d")
  case None
  with assms show ?thesis by (simp add: save_deviation_def)
next
  case (Some i)
  let ?t = "case key_title d of None \<Rightarrow> ''untitled'' | Some t \<Rightarrow> t"
  let ?w1 = "w\<lparr>conn := mark_subscription i a ?t (key_url d) (conn w)\<rparr>"
  have e1: "extends item_event w ?w1" by (rule extends_trace_eq) simp
  from assms Some consider "w' = w" | "w' = ?w1"
    | "download cfg e token a i ?t (key_url d) (key_content d) ?w1 = (r, w')"
    | "download cfg e token a i ?t (key_url d) (key_content d) w = (r, w')"
    by (auto simp: save_deviation_def Let_def split: if_splits)
  then show ?thesis
  proof cases
    case 1 then show ?thesis by simp
  next
    case 2 with e1 show ?thesis by simp
  next
    case 3 from e1 download_extends [OF 3] show ?thesis by (rule extends_trans)
  next
    case 4 then show ?thesis by (rule download_extends)
  qed
qed

lemma save_all_extends:
  "save_all cfg e token a ds w = (r, w') \<Longrightarrow> extends item_event w w'"
proof (induction ds arbitrary: w)
  case Nil
  then show ?case by simp
next
  case (Cons d ds)
  obtain r1 w1 where sd: "save_deviation cfg e token a d w = (r1, w1)"
    by (cases "save_deviation cfg e token a d w")
  note e1 = save_deviation_extends [OF sd]
  show ?case
  proof (cases r1)
    case (Inl err)
    with Cons.prems sd e1 show ?thesis by simp
  next
    case (Inr u)
    show ?thesis
    proof (cases "py_sleep (SLEEP_TIME cfg) w1")
      case (Inl err)
      with Cons.prems sd Inr e1 show ?thesis by simp
    next
      case (Inr w2)
      from py_sleep_Inr [OF Inr] have "extends item_event w1 w2"
        by (auto simp: extends_emit)
      moreover from Cons.prems sd \<open>r1 = Inr u\<close> Inr have "save_all cfg e token a ds w2 = (r, w')"
        by simp
      then have "extends item_event w2 w'" by (rule Cons.IH)
      ultimately show ?thesis using e1 by (blast intro: extends_trans)
    qed
  qed
qed

lemma find_key_None: "(find (\<lambda>r. deviationid r = i) db = None) = (i \<notin> deviationid ` set db)"
  by (induction db) auto

lemma is_subscription_append:
  "is_subscription db i \<Longrightarrow> is_subscription (db @ rs) i"
  by (induction db) (auto simp: is_subscription_def)

lemma prefix_insert_or_ignore: "prefix db (insert_or_ignore r db)"
  by (simp add: insert_or_ignore_def)

lemma is_subscription_prefix:
  "prefix db db' \<Longrightarrow> is_subscription db i \<Longrightarrow> is_subscription db' i"
  by (auto simp: prefix_def is_subscription_append)

lemma is_subscription_is_downloaded: "is_subscription db i \<Longrightarrow> is_downloaded db i"
  by (auto simp: is_subscription_def is_downloaded_def split: option.splits)

lemma same_store_conn: "same_store w w' \<Longrightarrow> conn w' = conn w"
  by (simp add: same_store_def)

lemma download_conn:
  assumes "download cfg e token a i t u content w = (r, w')"
  shows "prefix (conn w) (conn w')"
proof -
  obtain r1 w1 where ft: "fetch_tags cfg e token i w = (r1, w1)"
    by (cases "fetch_tags cfg e token i w")
  from fetch_tags_extends(2) [OF ft] have c1: "conn w1 = conn w" by (rule same_store_conn)
  show ?thesis
  proof (cases r1)
    case (Inl err)
    with assms ft c1 show ?thesis by (simp add: download_def)
  next
    case (Inr tags')
    with assms ft have "conn w' = mark_downloaded i a t u tags' (conn w1)"
      by (auto simp: download_def Let_def)
    with c1 show ?thesis by (simp add: mark_downloaded_def prefix_insert_or_ignore)
  qed
qed

lemma save_deviation_conn:
  assumes "save_deviation cfg e token a d w = (r, w')"
  shows "prefix (conn w) (conn w')"
proof (cases "key_deviationid d")
  case None
  with assms show ?thesis by (simp add: save_deviation_def)
next
  case (Some i)
  let ?t = "case key_title d of None \<Rightarrow> ''untitled'' | Some t \<Rightarrow> t"
  let ?w1 = "w\<lparr>conn := mark_subscription i a ?t (key_url d) (conn w)\<rparr>"
  have p1: "prefix (conn w) (conn ?w1)"
    by (simp add: mark_subscription_def prefix_insert_or_ignore)
  from assms Some consider "w' = w" | "w' = ?w1"
    | "download cfg e token a i ?t (key_url d) (key_content d) ?w1 = (r, w')"
    | "download cfg e token a i ?t (key_url d) (key_content d) w = (r, w')"
    by (auto simp: save_deviation_def Let_def split: if_splits)
  then show ?thesis
  proof cases
    case 1 then show ?thesis by simp
  next
    case 2 with p1 show ?thesis by simp
  next
    case 3 from p1 download_conn [OF 3] show ?thesis by (rule prefix_order.trans)
  next
    case 4 then show ?thesis by (rule download_conn)
  qed
qed

text \<open>
  C4. Once \<open>is_subscription\<close> holds of an identifier, it holds after any call of
  \<open>save_deviation\<close>, whatever the item, the remote side and the configuration (the flag
  \<open>DOWNLOAD_SUBSCRIPTIONS\<close> included): the ledger only ever grows at its end.
\<close>

theorem restricted_write_once:
  assumes "is_subscription (conn w) i" and "save_deviation cfg e token a d w = (r, w')"
  shows "is_subscription (conn w') i"
  using save_deviation_conn [OF assms(2)] assms(1) by (rule is_subscription_prefix)

text \<open>
  C6. An item with the premium marker set and no content, whose identifier the ledger
  does not hold, processed with \<open>DOWNLOAD_SUBSCRIPTIONS\<close> off: \<open>save_deviation\<close> returns
  normally and the only change is one new ledger row, flagged and with empty tags. The
  files, the trace of requests and every counter are as before: no sidecar, no asset, no
  fetch.
\<close>

theorem premium_item_flagged:
  assumes "key_deviationid d = Some i" and "key_premium_content d" and "key_content d = []"
    and "\<not> DOWNLOAD_SUBSCRIPTIONS cfg" and "\<not> is_downloaded (conn w) i"
  shows "save_deviation cfg e token a d w =
    (Inr (),
     w\<lparr>conn := conn w @
        [\<lparr>deviationid = i, artist = a,
          title = (case key_title d of None \<Rightarrow> ''untitled'' | Some t \<Rightarrow> t),
          url = key_url d, tags = '''', is_premium = 1\<rparr>]\<rparr>)"
proof -
  from assms(5) have ns: "\<not> is_subscription (conn w) i"
    by (auto dest: is_subscription_is_downloaded)
  from assms(5) have "i \<notin> deviationid ` set (conn w)"
    by (simp add: is_downloaded_def find_key_None)
  then have ins: "mark_subscription i a t u (conn w) =
      conn w @ [\<lparr>deviationid = i, artist = a, title = t, url = u, tags = '''', is_premium = 1\<rparr>]"
    for t u
    by (simp add: mark_subscription_def insert_or_ignore_def)
  from assms(2) have "premium d" by (simp add: premium_def)
  with assms(1,4,5) ns ins show ?thesis
    by (simp add: save_deviation_def Let_def)
qed

theorem premium_item_flagged_witness:
  "save_deviation cfg0 env_429 ''old'' ''alice'' premium_item w0 = (Inr (), w_flagged)"
proof -
  have h1: "key_deviationid premium_item = Some ''d1''" by (simp add: premium_item_def)
  have h2: "key_premium_content premium_item" by (simp add: premium_item_def)
  have h3: "key_content premium_item = []" by (simp add: premium_item_def)
  have h4: "\<not> DOWNLOAD_SUBSCRIPTIONS cfg0" by (simp add: cfg0_def)
  have h5: "\<not> is_downloaded (conn w0) ''d1''" by (simp add: w0_def is_downloaded_def)
  from premium_item_flagged [OF h1 h2 h3 h4 h5, of env_429 "''old''" "''alice''"]
  show ?thesis by (simp add: premium_item_def w_flagged_def w0_def)
qed

theorem restricted_write_once_witness:
  "is_subscription
     (conn (snd (save_deviation (cfg0\<lparr>DOWNLOAD_SUBSCRIPTIONS := True\<rparr>) env_429 ''old''
        ''alice'' premium_item w_flagged))) ''d1''"
proof -
  have h1: "is_subscription (conn w_flagged) ''d1''"
    by (simp add: w_flagged_def is_subscription_def)
  have h2: "save_deviation (cfg0\<lparr>DOWNLOAD_SUBSCRIPTIONS := True\<rparr>) env_429 ''old''
        ''alice'' premium_item w_flagged =
      (fst (save_deviation (cfg0\<lparr>DOWNLOAD_SUBSCRIPTIONS := True\<rparr>) env_429 ''old''
        ''alice'' premium_item w_flagged),
       snd (save_deviation (cfg0\<lparr>DOWNLOAD_SUBSCRIPTIONS := True\<rparr>) env_429 ''old''
        ''alice'' premium_item w_flagged))"
    by simp
  from restricted_write_once [OF h1 h2] show ?thesis .
qed

section \<open>Properties of the walkers and of the run\<close>

text \<open>
  C7 fails for the enumeration of the followed artists: its loop has no test for an empty
  batch. Here the first page is empty and declares more results, and a second page is
  requested, at the offset the server named.
\<close>

theorem followed_artists_empty_batch_continues:
  "get_followed_artists cfg0 env_empty_page (Suc (Suc 0)) ''old'' w0 =
     Some (Inr [],
       w0\<lparr>http_n := 2,
          trace :=
            [Http_get (friends_url cfg0) ''old''
               [(''access_token'', PStr ''old''), (''offset'', PInt 0), (''limit'', PInt 24)],
             Sleep 1,
             Http_get (friends_url cfg0) ''old''
               [(''access_token'', PStr ''old''), (''offset'', PInt 24), (''limit'', PInt 24)]]\<rparr>)"
  by (simp add: get_followed_artists_def deviantart_get_def get_loop.simps attempt_def
      py_sleep_def Let_def ok_def emit_def cfg0_def env_empty_page_def w0_def empty_body_def)

text \<open>
  C7, as amended. The enumeration of the followed artists ends with the response that
  declares no more results, whatever its batch: the world it returns is the one in which
  that response arrived. The walk of a gallery ends with a response whose batch is empty,
  in the same way, and with a response that declares no more results: after it only the
  events of the items of that page happen, none of them a request for a page. Each holds
  for every positive fuel.
\<close>

theorem walkers_stop:
  "(deviantart_get cfg e (friends_url cfg) token
        [(''access_token'', PStr token), (''offset'', offset_pval offset),
         (''limit'', PInt 24)] w = (Inr data, w1)
      \<and> subscripts ''username'' (map key_username (key_results data)) = Inr batch
      \<and> \<not> key_has_more data
    \<longrightarrow> friends_loop cfg e (Suc fuel) token offset artists w
          = Some (Inr (artists @ batch), w1))
   \<and> (deviantart_get cfg e gallery_url token
        [(''username'', PStr a), (''access_token'', PStr token),
         (''offset'', offset_pval offset), (''limit'', PInt 24)] w = (Inr data, w1)
      \<and> key_results data = []
    \<longrightarrow> walk_gallery cfg e (Suc fuel) token idx a offset w = Some (Inr (), w1))
   \<and> (deviantart_get cfg e gallery_url token
        [(''username'', PStr a), (''access_token'', PStr token),
         (''offset'', offset_pval offset), (''limit'', PInt 24)] w = (Inr data, w1)
      \<and> key_results data \<noteq> [] \<and> \<not> key_has_more data
    \<longrightarrow> (\<exists>r w'. walk_gallery cfg e (Suc fuel) token idx a offset w = Some (r, w')
          \<and> extends item_event w1 w'))"
proof (intro conjI impI)
  assume "deviantart_get cfg e (friends_url cfg) token
        [(''access_token'', PStr token), (''offset'', offset_pval offset),
         (''limit'', PInt 24)] w = (Inr data, w1)
      \<and> subscripts ''username'' (map key_username (key_results data)) = Inr batch
      \<and> \<not> key_has_more data"
  then show "friends_loop cfg e (Suc fuel) token offset artists w
          = Some (Inr (artists @ batch), w1)"
    by simp
next
  assume "deviantart_get cfg e gallery_url token
        [(''username'', PStr a), (''access_token'', PStr token),
         (''offset'', offset_pval offset), (''limit'', PInt 24)] w = (Inr data, w1)
      \<and> key_results data = []"
  then show "walk_gallery cfg e (Suc fuel) token idx a offset w = Some (Inr (), w1)"
    by simp
next
  assume h: "deviantart_get cfg e gallery_url token
        [(''username'', PStr a), (''access_token'', PStr token),
         (''offset'', offset_pval offset), (''limit'', PInt 24)] w = (Inr data, w1)
      \<and> key_results data \<noteq> [] \<and> \<not> key_has_more data"
  obtain r2 w2 where sa: "save_all cfg e token a (key_results data) w1 = (r2, w2)"
    by (cases "save_all cfg e token a (key_results data) w1")
  note e2 = save_all_extends [OF sa]
  show "\<exists>r w'. walk_gallery cfg e (Suc fuel) token idx a offset w = Some (r, w')
          \<and> extends item_event w1 w'"
  proof (cases r2)
    case (Inl err)
    with h sa e2 show ?thesis by simp
  next
    case (Inr u)
    have "extends item_event w2 (save_progress idx (key_next_offset data) w2)"
      by (rule extends_trace_eq) (simp add: save_progress_def)
    with e2 have "extends item_event w1 (save_progress idx (key_next_offset data) w2)"
      by (rule extends_trans)
    with h sa Inr show ?thesis by (simp add: Let_def)
  qed
qed

lemma deviantart_get_first_ok:
  assumes "http e (http_n w) = Response 200 data" and "1 \<le> MAX_RETRIES cfg"
  shows "deviantart_get cfg e u token ps w =
    (Inr data, w\<lparr>http_n := Suc (http_n w), trace := trace w @ [Http_get u token ps]\<rparr>)"
  using assms
  by (simp add: deviantart_get_def get_loop.simps [of cfg e u ps token 0 w] attempt_def
      Let_def ok_def emit_def)

theorem walkers_stop_witness:
  "friends_loop cfg0 env_done (Suc 0) ''old'' (Some 0) [] w0 =
     Some (Inr [],
       w0\<lparr>http_n := 1,
          trace := [Http_get (friends_url cfg0) ''old''
            [(''access_token'', PStr ''old''), (''offset'', PInt 0), (''limit'', PInt 24)]]\<rparr>)
   \<and> walk_gallery cfg0 env_done (Suc 0) ''old'' 0 ''alice'' (Some 0) w0 =
     Some (Inr (),
       w0\<lparr>http_n := 1,
          trace := [Http_get gallery_url ''old''
            [(''username'', PStr ''alice''), (''access_token'', PStr ''old''),
             (''offset'', PInt 0), (''limit'', PInt 24)]]\<rparr>)
   \<and> walk_gallery cfg0 env_one_page (Suc 0) ''old'' 0 ''alice'' (Some 0) w0 \<noteq> None"
proof -
  have m: "1 \<le> MAX_RETRIES cfg0" by (simp add: cfg0_def)
  have h1: "http env_done (http_n w0) = Response 200 empty_body" by (simp add: env_done_def)
  have h2: "http env_one_page (http_n w0) = Response 200 one_page"
    by (simp add: env_one_page_def)
  note g1 = deviantart_get_first_ok [OF h1 m]
  note g2 = deviantart_get_first_ok [OF h2 m]
  have a: "friends_loop cfg0 env_done (Suc 0) ''old'' (Some 0) [] w0 =
     Some (Inr ([] @ []),
       w0\<lparr>http_n := Suc (http_n w0),
          trace := trace w0 @ [Http_get (friends_url cfg0) ''old''
            [(''access_token'', PStr ''old''), (''offset'', offset_pval (Some 0)),
             (''limit'', PInt 24)]]\<rparr>)"
    by (rule walkers_stop [THEN conjunct1, rule_format, where data = empty_body])
      (simp add: g1 empty_body_def)
  have b: "walk_gallery cfg0 env_done (Suc 0) ''old'' 0 ''alice'' (Some 0) w0 =
     Some (Inr (),
       w0\<lparr>http_n := Suc (http_n w0),
          trace := trace w0 @ [Http_get gallery_url ''old''
            [(''username'', PStr ''alice''), (''access_token'', PStr ''old''),
             (''offset'', offset_pval (Some 0)), (''limit'', PInt 24)]]\<rparr>)"
    by (rule walkers_stop [THEN conjunct2, THEN conjunct1, rule_format, where data = empty_body])
      (simp add: g2 g1 empty_body_def)
  have "\<exists>r w'. walk_gallery cfg0 env_one_page (Suc 0) ''old'' 0 ''alice'' (Some 0) w0
      = Some (r, w')
    \<and> extends item_event
        (w0\<lparr>http_n := Suc (http_n w0),
          trace := trace w0 @ [Http_get gallery_url ''old''
            [(''username'', PStr ''alice''), (''access_token'', PStr ''old''),
             (''offset'', offset_pval (Some 0)), (''limit'', PInt 24)]]\<rparr>) w'"
    by (rule walkers_stop [THEN conjunct2, THEN conjunct2, rule_format, where data = one_page])
      (simp add: g2 one_page_def)
  then have c: "walk_gallery cfg0 env_one_page (Suc 0) ''old'' 0 ''alice'' (Some 0) w0 \<noteq> None"
    by auto
  from a b c show ?thesis by (simp add: w0_def)
qed

text \<open>
  C1 fails in its last part: \<open>deviantart_get\<close> returns the body only, and the walk keeps
  the token it was called with. Here the first request of the walk is refused with status
  401 and retried with the new token; the request for the next page carries the old token
  again.
\<close>

theorem refreshed_token_not_kept:
  "walk_gallery cfg0 env_expired (Suc (Suc 0)) ''old'' 0 ''alice'' (Some 0) w_flagged =
     Some (Inr (),
       w_flagged\<lparr>http_n := 3, auth_n := 1,
          progress_json := Stored \<lparr>last_artist_index = 0, last_offset = Some 24\<rparr>,
          trace :=
            [Http_get gallery_url ''old''
               [(''username'', PStr ''alice''), (''access_token'', PStr ''old''),
                (''offset'', PInt 0), (''limit'', PInt 24)],
             Token_post,
             Http_get gallery_url ''new''
               [(''username'', PStr ''alice''), (''access_token'', PStr ''old''),
                (''offset'', PInt 0), (''limit'', PInt 24)],
             Sleep 1,
             Http_get gallery_url ''old''
               [(''username'', PStr ''alice''), (''access_token'', PStr ''old''),
                (''offset'', PInt 24), (''limit'', PInt 24)]]\<rparr>)"
  by (simp add: deviantart_get_def get_loop.simps attempt_def get_access_token_def
      save_deviation_def is_subscription_def save_progress_def
      py_sleep_def Let_def ok_def emit_def cfg0_def env_expired_def w_flagged_def w0_def
      empty_body_def premium_item_def)

lemma enumerate_from_lower: "(i, a) \<in> set (enumerate_from k xs) \<Longrightarrow> k \<le> i"
  by (induction xs arbitrary: k) (auto, force)

lemma for_artists_from_zero:
  "\<forall>(i, a) \<in> set xs. i \<noteq> si \<Longrightarrow>
   for_artists cfg e fuel token si so xs w = spec_walk_from_zero cfg e fuel token xs w"
proof (induction xs arbitrary: so w)
  case Nil
  show ?case by simp
next
  case (Cons x xs)
  obtain idx a where x: "x = (idx, a)" by (cases x)
  from Cons.prems x have ne: "idx \<noteq> si" and rest: "\<forall>(i, a) \<in> set xs. i \<noteq> si"
    by auto
  show ?case
  proof (cases "walk_gallery cfg e fuel token idx a (Some 0) (emit (Log_artist idx a) w)")
    case None
    with x ne show ?thesis by simp
  next
    case (Some rw)
    obtain r w1 where rw: "rw = (r, w1)" by (cases rw)
    show ?thesis
    proof (cases r)
      case (Inl err)
      with x ne Some rw Cons.IH [OF rest] show ?thesis by simp
    next
      case (Inr u)
      with x ne Some rw Cons.IH [OF rest] show ?thesis by simp
    qed
  qed
qed

lemma get_access_token_progress:
  "get_access_token e w = (r, w') \<Longrightarrow> progress_json w' = progress_json w"
  by (auto simp: get_access_token_def Let_def split: auth_outcome.splits)

lemma friends_loop_progress:
  "friends_loop cfg e fuel token off artists w = Some (r, w') \<Longrightarrow>
   progress_json w' = progress_json w"
proof (induction fuel arbitrary: off artists w)
  case 0
  then show ?case by simp
next
  case (Suc fuel)
  let ?ps = "[(''access_token'', PStr token), (''offset'', offset_pval off),
              (''limit'', PInt 24)]"
  obtain r1 w1 where dg: "deviantart_get cfg e (friends_url cfg) token ?ps w = (r1, w1)"
    by (cases "deviantart_get cfg e (friends_url cfg) token ?ps w")
  from deviantart_get_extends(2) [OF dg] have p1: "progress_json w1 = progress_json w"
    by (simp add: same_store_def)
  show ?case
  proof (cases r1)
    case (Inl err)
    with Suc.prems dg p1 show ?thesis by auto
  next
    case (Inr data)
    show ?thesis
    proof (cases "subscripts ''username'' (map key_username (key_results data))")
      case (Inl err)
      with Suc.prems dg \<open>r1 = Inr data\<close> p1 show ?thesis by auto
    next
      case batch: (Inr batch)
      show ?thesis
      proof (cases "key_has_more data")
        case False
        with Suc.prems dg \<open>r1 = Inr data\<close> batch p1 show ?thesis by auto
      next
        case True
        show ?thesis
        proof (cases "py_sleep (SLEEP_TIME cfg) w1")
          case (Inl err)
          with Suc.prems dg \<open>r1 = Inr data\<close> batch True p1 show ?thesis by auto
        next
          case (Inr w2)
          from py_sleep_Inr [OF Inr] have p2: "progress_json w2 = progress_json w1" by auto
          from Suc.prems dg \<open>r1 = Inr data\<close> batch True Inr have
            "friends_loop cfg e fuel token (key_next_offset data) (artists @ batch) w2
               = Some (r, w')"
            by simp
          from Suc.IH [OF this] p1 p2 show ?thesis by simp
        qed
      qed
    qed
  qed
qed

text \<open>
  C5. A run that starts from the stored checkpoint \<open>(2, 10)\<close>, without a forced
  re-check, over a list of at least three artists, is this and nothing else, whether or
  not it ends: the artist at index 2 is announced and walked from offset 10; then, the
  error of that walk logged if it raised one, the artists from index 3 on are walked in
  order as the spec says, each from offset 0; then the checkpoint is reset. No artist
  below index 2 takes part. When a walk never ends, neither does the run (\<open>None\<close> on
  both sides).
\<close>

theorem resume_from_checkpoint:
  assumes "progress_json w = Stored \<lparr>last_artist_index = 2, last_offset = Some 10\<rparr>"
    and "\<not> FORCE_RECHECK cfg" and "3 \<le> length artists"
  shows "run_artists cfg e fuel token artists w =
    (case walk_gallery cfg e fuel token 2 (artists ! 2) (Some 10)
            (emit (Log_artist 2 (artists ! 2)) w) of
       None \<Rightarrow> None
     | Some (r, w1) \<Rightarrow>
         (case spec_walk_from_zero cfg e fuel token (enumerate_from 3 (drop 3 artists))
                 (case r of
                    Inl err \<Rightarrow> emit (Log_artist_error (artists ! 2) err) w1
                  | Inr u \<Rightarrow> w1) of
            None \<Rightarrow> None
          | Some w' \<Rightarrow> Some (Inr (), save_progress 0 (Some 0) w')))"
proof -
  from assms(1,2) have lp: "start_position (load_progress cfg w) = Inr (2, Some 10)"
    by (simp add: load_progress_def)
  from assms(3) have "artists ! 2 # drop (Suc 2) artists = drop 2 artists"
    by (intro Cons_nth_drop_Suc) simp
  then have dr: "drop 2 artists = artists ! 2 # drop 3 artists"
    by (simp add: numeral_3_eq_3)
  have en: "enumerate_from 2 (slice_from artists 2)
      = (2, artists ! 2) # enumerate_from 3 (drop 3 artists)"
    by (simp add: slice_from_def dr)
  have later: "\<forall>(i, a) \<in> set (enumerate_from 3 (drop 3 artists)). i \<noteq> 2"
    by (auto dest: enumerate_from_lower)
  note z = for_artists_from_zero [OF later, of cfg e fuel token]
  show ?thesis
  proof (cases "walk_gallery cfg e fuel token 2 (artists ! 2) (Some 10)
            (emit (Log_artist 2 (artists ! 2)) w)")
    case None
    then show ?thesis by (simp add: run_artists_def lp en)
  next
    case (Some rw)
    obtain r w1 where rw: "rw = (r, w1)" by (cases rw)
    show ?thesis
    proof (cases r)
      case (Inl err)
      with Some rw show ?thesis by (simp add: run_artists_def lp en z)
    next
      case (Inr u)
      with Some rw show ?thesis by (simp add: run_artists_def lp en z)
    qed
  qed
qed

theorem resume_from_checkpoint_witness:
  "run_artists cfg0 env_done (Suc 0) ''old'' [''a'', ''b'', ''c'', ''d''] w_checkpoint =
     Some (Inr (),
       w0\<lparr>http_n := 2,
         progress_json := Stored \<lparr>last_artist_index = 0, last_offset = Some 0\<rparr>,
         trace :=
           [Log_artist 2 ''c'',
            Http_get gallery_url ''old''
              [(''username'', PStr ''c''), (''access_token'', PStr ''old''),
               (''offset'', PInt 10), (''limit'', PInt 24)],
            Log_artist 3 ''d'',
            Http_get gallery_url ''old''
              [(''username'', PStr ''d''), (''access_token'', PStr ''old''),
               (''offset'', PInt 0), (''limit'', PInt 24)]]\<rparr>)"
proof -
  have h1: "progress_json w_checkpoint = Stored \<lparr>last_artist_index = 2, last_offset = Some 10\<rparr>"
    by (simp add: w_checkpoint_def)
  have h2: "\<not> FORCE_RECHECK cfg0" by (simp add: cfg0_def)
  have h3: "3 \<le> length [''a'', ''b'', ''c'', ''d'']" by simp
  show ?thesis
    unfolding resume_from_checkpoint [OF h1 h2 h3]
    by (simp add: save_progress_def deviantart_get_def get_loop.simps attempt_def Let_def
        ok_def emit_def cfg0_def env_done_def w_checkpoint_def w0_def empty_body_def)
qed

text \<open>
  C8 fails in its last part: lines 325 to 330 stand outside every \<open>try\<close>. Here the
  credential exchange and the enumeration of the followed artists succeed, the checkpoint
  file holds JSON that is not a dict (a list, say), and the \<open>AttributeError\<close> of
  \<open>progress.get\<close> leaves \<open>main\<close>.
\<close>

theorem checkpoint_error_leaves_main:
  "main cfg0 env_done (Suc 0) (w0\<lparr>progress_json := Not_a_dict\<rparr>) =
     Some (Inl AttributeError,
       w0\<lparr>http_n := 1, auth_n := 1, progress_json := Not_a_dict,
         trace :=
           [Token_post,
            Http_get (friends_url cfg0) ''new''
              [(''access_token'', PStr ''new''), (''offset'', PInt 0),
               (''limit'', PInt 24)]]\<rparr>)"
  by (simp add: main_def get_access_token_def get_followed_artists_def run_artists_def
      load_progress_def deviantart_get_def get_loop.simps attempt_def Let_def ok_def emit_def
      cfg0_def env_done_def w0_def empty_body_def)

text \<open>
  C8, as amended. An exception of one artist's walk does not leave the loop, whether or
  not the run ends: when the walk of the artist at some index raises, the loop is from
  there on exactly this: the error is logged, and the artists after it are walked in
  order as the spec says, each from offset 0. An error of the first credential exchange
  or of the enumeration of the followed artists leaves \<open>main\<close>. When both succeed and the
  checkpoint can be read (it is absent, unreadable, ignored, or a dict with an integer
  index), \<open>main\<close> is the loop followed by the reset of the checkpoint and raises nothing;
  so with such a checkpoint an error that leaves \<open>main\<close> is one of those two.
\<close>

theorem creator_errors_caught:
  "(walk_gallery cfg e fuel token idx a (if idx = si then so else Some 0)
        (emit (Log_artist idx a) w) = Some (Inl err, w1) \<and> si \<le> idx
    \<longrightarrow> for_artists cfg e fuel token si so ((idx, a) # enumerate_from (idx + 1) names) w
          = spec_walk_from_zero cfg e fuel token (enumerate_from (idx + 1) names)
              (emit (Log_artist_error a err) w1))
   \<and> (get_access_token e w = (Inl err, w1) \<longrightarrow> main cfg e fuel w = Some (Inl err, w1))
   \<and> (get_access_token e w = (Inr token', w1)
        \<and> get_followed_artists cfg e fuel token' w1 = Some (Inl err, w2)
    \<longrightarrow> main cfg e fuel w = Some (Inl err, w2))
   \<and> (get_access_token e w = (Inr token', w1)
        \<and> get_followed_artists cfg e fuel token' w1 = Some (Inr artists, w2)
        \<and> start_position (load_progress cfg w2) = Inr (si, so)
    \<longrightarrow> main cfg e fuel w =
          (case for_artists cfg e fuel token' si so
                  (enumerate_from si (slice_from artists si)) w2 of
             None \<Rightarrow> None
           | Some w' \<Rightarrow> Some (Inr (), save_progress 0 (Some 0) w')))
   \<and> (main cfg e fuel w = Some (Inl err, w') \<and> start_position (load_progress cfg w) = Inr pos
    \<longrightarrow> get_access_token e w = (Inl err, w')
        \<or> (\<exists>token' w3. get_access_token e w = (Inr token', w3)
              \<and> get_followed_artists cfg e fuel token' w3 = Some (Inl err, w')))"
proof (intro conjI impI)
  assume h: "walk_gallery cfg e fuel token idx a (if idx = si then so else Some 0)
        (emit (Log_artist idx a) w) = Some (Inl err, w1) \<and> si \<le> idx"
  let ?rest = "enumerate_from (idx + 1) names"
  from h have "for_artists cfg e fuel token si so ((idx, a) # ?rest) w
      = for_artists cfg e fuel token si so ?rest (emit (Log_artist_error a err) w1)"
    by simp
  moreover from h have "\<forall>(i, a) \<in> set ?rest. i \<noteq> si"
    by (auto dest: enumerate_from_lower)
  ultimately show "for_artists cfg e fuel token si so ((idx, a) # ?rest) w
      = spec_walk_from_zero cfg e fuel token ?rest (emit (Log_artist_error a err) w1)"
    by (simp add: for_artists_from_zero)
next
  assume "get_access_token e w = (Inl err, w1)"
  then show "main cfg e fuel w = Some (Inl err, w1)" by (simp add: main_def)
next
  assume "get_access_token e w = (Inr token', w1)
        \<and> get_followed_artists cfg e fuel token' w1 = Some (Inl err, w2)"
  then show "main cfg e fuel w = Some (Inl err, w2)" by (simp add: main_def)
next
  assume "get_access_token e w = (Inr token', w1)
        \<and> get_followed_artists cfg e fuel token' w1 = Some (Inr artists, w2)
        \<and> start_position (load_progress cfg w2) = Inr (si, so)"
  then show "main cfg e fuel w =
          (case for_artists cfg e fuel token' si so
                  (enumerate_from si (slice_from artists si)) w2 of
             None \<Rightarrow> None
           | Some w' \<Rightarrow> Some (Inr (), save_progress 0 (Some 0) w'))"
    by (simp add: main_def run_artists_def)
next
  assume h: "main cfg e fuel w = Some (Inl err, w')
      \<and> start_position (load_progress cfg w) = Inr pos"
  then have m: "main cfg e fuel w = Some (Inl err, w')"
    and sp: "start_position (load_progress cfg w) = Inr pos"
    by simp_all
  obtain r0 w3 where ga: "get_access_token e w = (r0, w3)"
    by (cases "get_access_token e w")
  show "get_access_token e w = (Inl err, w')
        \<or> (\<exists>token' w3. get_access_token e w = (Inr token', w3)
              \<and> get_followed_artists cfg e fuel token' w3 = Some (Inl err, w'))"
  proof (cases r0)
    case (Inl err0)
    with m ga show ?thesis by (simp add: main_def)
  next
    case (Inr token')
    show ?thesis
    proof (cases "get_followed_artists cfg e fuel token' w3")
      case None
      with m ga Inr show ?thesis by (simp add: main_def)
    next
      case (Some rw)
      obtain r2 w2 where rw: "rw = (r2, w2)" by (cases rw)
      show ?thesis
      proof (cases r2)
        case (Inl err2)
        with m ga \<open>r0 = Inr token'\<close> Some rw show ?thesis by (simp add: main_def)
      next
        case artists: (Inr artists)
        from Some rw have "progress_json w2 = progress_json w3"
          by (auto simp: get_followed_artists_def dest: friends_loop_progress)
        with get_access_token_progress [OF ga] have "load_progress cfg w2 = load_progress cfg w"
          by (simp add: load_progress_def)
        with sp have "start_position (load_progress cfg w2) = Inr pos" by simp
        with m ga \<open>r0 = Inr token'\<close> Some rw artists show ?thesis
          by (auto simp: main_def run_artists_def split: option.splits prod.splits)
      qed
    qed
  qed
qed

lemma exhausted_walk:
  "walk_gallery cfg0 env_429 (Suc 0) ''old'' 0 ''alice'' (Some 0)
     (emit (Log_artist 0 ''alice'') w0) = Some (Inl (RuntimeError 5 gallery_url), w_exhausted)"
  by (simp add: deviantart_get_def get_loop.simps attempt_def sleep_continue_def
      py_sleep_int_def Let_def emit_def cfg0_def env_429_def w0_def w_exhausted_def
      alice_page_def)

lemma exhausted_rest:
  "spec_walk_from_zero cfg0 env_429 (Suc 0) ''old'' (enumerate_from (0 + 1) [''bob''])
     (emit (Log_artist_error ''alice'' (RuntimeError 5 gallery_url)) w_exhausted)
   = Some w_both_exhausted"
  by (simp add: deviantart_get_def get_loop.simps attempt_def sleep_continue_def
      py_sleep_int_def Let_def emit_def cfg0_def env_429_def w0_def w_exhausted_def
      alice_page_def w_both_exhausted_def bob_events_def bob_page_def)

theorem creator_errors_caught_witness:
  "for_artists cfg0 env_429 (Suc 0) ''old'' 0 (Some 0) [(0, ''alice''), (1, ''bob'')] w0
     = Some w_both_exhausted
   \<and> main cfg0 env_no_auth (Suc 0) w0
     = Some (Inl HTTPError, w0\<lparr>auth_n := 1, trace := [Token_post]\<rparr>)"
proof -
  have h: "walk_gallery cfg0 env_429 (Suc 0) ''old'' 0 ''alice''
        (if (0::int) = 0 then Some 0 else Some 0) (emit (Log_artist 0 ''alice'') w0)
      = Some (Inl (RuntimeError 5 gallery_url), w_exhausted) \<and> (0::int) \<le> 0"
    using exhausted_walk by simp
  from creator_errors_caught [THEN conjunct1, rule_format, OF h, of "[''bob'']"]
  have a: "for_artists cfg0 env_429 (Suc 0) ''old'' 0 (Some 0) [(0, ''alice''), (1, ''bob'')] w0
     = Some w_both_exhausted"
    by (simp only: exhausted_rest) simp
  have g: "get_access_token env_no_auth w0
      = (Inl HTTPError, w0\<lparr>auth_n := 1, trace := [Token_post]\<rparr>)"
    by (simp add: get_access_token_def Let_def emit_def env_no_auth_def w0_def)
  from creator_errors_caught [THEN conjunct2, THEN conjunct1, rule_format, OF g]
  have b: "main cfg0 env_no_auth (Suc 0) w0
     = Some (Inl HTTPError, w0\<lparr>auth_n := 1, trace := [Token_post]\<rparr>)" .
  from a b show ?thesis ..
qed

end
